theory Spec2Isabelle
  imports Complex_Main "HOL-Library.Word"
begin

section \<open>Display state derived from an interaction snapshot\<close>

text \<open>
  Both front-end components read \<open>interaction.hands\<close>, an object keyed by hand label whose
  values carry the optional fields \<open>selected\<close> and \<open>hovered\<close> (an object id, or
  \<open>null\<close>/absent). \<open>Object.values\<close> gives the hand states in insertion order: a list.
  An absent or \<open>null\<close> field is \<open>None\<close>.
\<close>

record hand =
  selected :: "int option"
  hovered :: "int option"

text \<open>
  JavaScript truthiness of an optional id, as tested by \<open>if (hand.selected)\<close>: \<open>null\<close>,
  \<open>undefined\<close> and the number \<open>0\<close> are falsy.
\<close>

definition truthy :: "int option \<Rightarrow> bool" where
  "truthy v = (case v of None \<Rightarrow> False | Some n \<Rightarrow> n \<noteq> 0)"

text \<open>\<open>ids.add(v)\<close> and \<open>ids.has(v)\<close> for an optional id.\<close>

definition add_id :: "int option \<Rightarrow> int set \<Rightarrow> int set" where
  "add_id v ids = (case v of None \<Rightarrow> ids | Some n \<Rightarrow> insert n ids)"

definition has_id :: "int option \<Rightarrow> int set \<Rightarrow> bool" where
  "has_id v ids = (case v of None \<Rightarrow> False | Some n \<Rightarrow> n \<in> ids)"

subsection \<open>InteractionOverlay.jsx, \<open>objectsWithState\<close>\<close>

text \<open>
  One \<open>forEach\<close> over the hands fills both sets; the pair is (selectedIds, hoveredIds).
\<close>

definition overlay_step :: "hand \<Rightarrow> int set \<times> int set \<Rightarrow> int set \<times> int set" where
  "overlay_step h acc =
     (let (selectedIds, hoveredIds) = acc;
          selectedIds' = (if truthy (selected h) then add_id (selected h) selectedIds
                          else selectedIds);
          hoveredIds' = (if truthy (hovered h) then add_id (hovered h) hoveredIds
                         else hoveredIds)
      in (selectedIds', hoveredIds'))"

definition overlay_sets :: "hand list \<Rightarrow> int set \<times> int set" where
  "overlay_sets handStates = fold overlay_step handStates ({}, {})"

text \<open>
  A detected object; only its optional \<open>id\<close> matters here. \<open>obj.id || index\<close> falls back
  to the position in the list when the id is absent or \<open>0\<close>.
\<close>

record scene_object =
  obj_id :: "int option"

definition id_or_index :: "scene_object \<Rightarrow> nat \<Rightarrow> int" where
  "id_or_index obj index =
     (case obj_id obj of None \<Rightarrow> int index
      | Some n \<Rightarrow> if n \<noteq> 0 then n else int index)"

record object_with_state =
  ows_id :: int
  isSelected :: bool
  isHovered :: bool

definition objectsWithState :: "scene_object list \<Rightarrow> hand list \<Rightarrow> object_with_state list" where
  "objectsWithState objects handStates =
     (let (selectedIds, hoveredIds) = overlay_sets handStates
      in map (\<lambda>(index, obj).
               \<lparr> ows_id = id_or_index obj index,
                 isSelected = (id_or_index obj index \<in> selectedIds),
                 isHovered = (id_or_index obj index \<in> hoveredIds
                               \<and> id_or_index obj index \<notin> selectedIds) \<rparr>)
             (enumerate 0 objects))"

subsection \<open>InteractionDemo, \<open>selectedIds\<close> and \<open>hoveredIds\<close>\<close>

definition selectedIds :: "hand list \<Rightarrow> int set" where
  "selectedIds handStates =
     fold (\<lambda>h ids. if truthy (selected h) then add_id (selected h) ids else ids)
          handStates {}"

definition hoveredIds :: "hand list \<Rightarrow> int set" where
  "hoveredIds handStates =
     fold (\<lambda>h ids. if truthy (hovered h) \<and> \<not> has_id (hovered h) (selectedIds handStates)
                    then add_id (hovered h) ids else ids)
          handStates {}"

text \<open>The two flags handed to \<open>DemoShape\<close> for an object with id \<open>i\<close>.\<close>

definition demo_flags :: "hand list \<Rightarrow> int \<Rightarrow> bool \<times> bool" where
  "demo_flags handStates i = (i \<in> selectedIds handStates, i \<in> hoveredIds handStates)"

section \<open>Numbers and typed arrays\<close>

text \<open>
  The elements of a \<open>Float32Array\<close> and the results of JavaScript arithmetic: a finite
  value (the real number that the float denotes), an infinity or \<open>NaN\<close>. The two zeros
  are one value.
\<close>

datatype number = Num real | PInf | NInf | NaN

text \<open>
  IEEE-754 rounding of a real to the binary format with \<open>p\<close> significant bits and
  exponents from \<open>emin\<close> to \<open>emax\<close>: to the nearest representable value, ties to the
  even significand, to an infinity from \<open>2 ^ (emax + 1)\<close> on, with subnormals below
  \<open>2 ^ emin\<close>. \<open>to_f64\<close> is the rounding of every arithmetic result (binary64),
  \<open>to_f32\<close> the rounding of a store into a \<open>Float32Array\<close> (binary32).
\<close>

definition pow2 :: "int \<Rightarrow> real" where
  "pow2 k = (if 0 \<le> k then 2 ^ nat k else 1 / 2 ^ nat (- k))"

definition round_half_even :: "real \<Rightarrow> int" where
  "round_half_even m =
     (let f = \<lfloor>m\<rfloor>; r = m - of_int f
      in if r < 1 / 2 then f else if 1 / 2 < r then f + 1 else if even f then f else f + 1)"

definition round_to :: "nat \<Rightarrow> int \<Rightarrow> int \<Rightarrow> real \<Rightarrow> number" where
  "round_to p emin emax x =
     (if x = 0 then Num 0
      else
        (let e = max \<lfloor>log 2 \<bar>x\<bar>\<rfloor> emin;
             ulp = pow2 (e - int p + 1);
             y = of_int (round_half_even (x / ulp)) * ulp
         in if pow2 (emax + 1) \<le> \<bar>y\<bar> then (if 0 < x then PInf else NInf) else Num y))"

definition to_f64 :: "real \<Rightarrow> number" where
  "to_f64 = round_to 53 (- 1022) 1023"

definition to_f32 :: "real \<Rightarrow> number" where
  "to_f32 = round_to 24 (- 126) 127"

text \<open>\<open>arr[k] = v\<close> on a \<open>Float32Array\<close> stores \<open>v\<close> rounded to binary32.\<close>

definition store_f32 :: "number \<Rightarrow> number" where
  "store_f32 v = (case v of Num x \<Rightarrow> to_f32 x | PInf \<Rightarrow> PInf | NInf \<Rightarrow> NInf | NaN \<Rightarrow> NaN)"

text \<open>
  \<open>arr[k]\<close> read from a typed array and stored into a \<open>Float32Array\<close>: outside the
  array the read gives \<open>undefined\<close>, which converts to \<open>NaN\<close>.
\<close>

definition rd :: "number list \<Rightarrow> nat \<Rightarrow> number" where
  "rd arr k = (if k < length arr then arr ! k else NaN)"

text \<open>\<open>new Float32Array(n)\<close>: \<open>n\<close> zeros.\<close>

definition new_Float32Array :: "nat \<Rightarrow> number list" where
  "new_Float32Array n = replicate n (Num 0)"

record decoded =
  points :: "number list option"
  colors :: "number list option"
  numPoints :: nat

section \<open>PointCloudViewer: \<open>decodePointCloud\<close>\<close>

subsection \<open>Arithmetic\<close>

text \<open>
  \<open>x / c\<close> for a positive finite constant \<open>c\<close> (the source divides by \<open>65535\<close> and
  by \<open>255\<close> only), \<open>x * y\<close> and \<open>x + y\<close> on doubles: the exact result of finite
  operands rounded to binary64, and the IEEE-754 rules for the non-finite operands.
\<close>

fun div_const :: "number \<Rightarrow> real \<Rightarrow> number" where
  "div_const (Num a) c = to_f64 (a / c)"
| "div_const PInf c = PInf"
| "div_const NInf c = NInf"
| "div_const NaN c = NaN"

definition inf_of_sign :: "real \<Rightarrow> number" where
  "inf_of_sign a = (if a = 0 then NaN else if 0 < a then PInf else NInf)"

fun jmul :: "number \<Rightarrow> number \<Rightarrow> number" where
  "jmul (Num a) (Num b) = to_f64 (a * b)"
| "jmul NaN y = NaN"
| "jmul x NaN = NaN"
| "jmul (Num a) PInf = inf_of_sign a"
| "jmul (Num a) NInf = inf_of_sign (- a)"
| "jmul PInf (Num b) = inf_of_sign b"
| "jmul NInf (Num b) = inf_of_sign (- b)"
| "jmul PInf PInf = PInf"
| "jmul PInf NInf = NInf"
| "jmul NInf PInf = NInf"
| "jmul NInf NInf = PInf"

fun jadd :: "number \<Rightarrow> number \<Rightarrow> number" where
  "jadd (Num a) (Num b) = to_f64 (a + b)"
| "jadd NaN y = NaN"
| "jadd x NaN = NaN"
| "jadd PInf NInf = NaN"
| "jadd NInf PInf = NaN"
| "jadd PInf y = PInf"
| "jadd NInf y = NInf"
| "jadd x PInf = PInf"
| "jadd x NInf = NInf"

subsection \<open>Bytes, \<open>DataView\<close> and typed-array views\<close>

type_synonym byte = "8 word"

datatype js_error = RangeError | InvalidCharacterError | InflateError

text \<open>Sequencing of steps that may throw: the first error ends the \<open>try\<close> block.\<close>

definition thenE :: "js_error + 'a \<Rightarrow> ('a \<Rightarrow> js_error + 'b) \<Rightarrow> js_error + 'b" where
  "thenE m f = (case m of Inl e \<Rightarrow> Inl e | Inr x \<Rightarrow> f x)"

text \<open>The little-endian unsigned value of \<open>n\<close> bytes starting at \<open>off\<close>.\<close>

fun le_bytes :: "byte list \<Rightarrow> nat \<Rightarrow> nat \<Rightarrow> nat" where
  "le_bytes buf off 0 = 0"
| "le_bytes buf off (Suc n) = unat (buf ! off) + 256 * le_bytes buf (Suc off) n"

text \<open>
  The value of an IEEE-754 binary32 bit pattern: sign bit, 8 exponent bits, 23 fraction
  bits; exponent 255 is an infinity or a \<open>NaN\<close>, exponent 0 a subnormal.
\<close>

definition f32_of_bits :: "nat \<Rightarrow> number" where
  "f32_of_bits w =
     (let sign = w div 2 ^ 31;
          e = (w div 2 ^ 23) mod 256;
          m = w mod 2 ^ 23;
          sg = (if sign = 0 then 1 else - 1 :: real)
      in if e = 255 then (if m = 0 then (if sign = 0 then PInf else NInf) else NaN)
         else if e = 0 then Num (sg * real m / 2 ^ 149)
         else if 150 \<le> e then Num (sg * real (2 ^ 23 + m) * 2 ^ (e - 150))
         else Num (sg * real (2 ^ 23 + m) / 2 ^ (150 - e)))"

text \<open>
  \<open>view.getUint8(off)\<close>, \<open>view.getUint16(off, true)\<close>, \<open>view.getUint32(off, true)\<close> and
  \<open>view.getFloat32(off, true)\<close> on a \<open>DataView\<close> over the whole buffer: a read that
  does not fit in the buffer throws \<open>RangeError\<close>.
\<close>

definition getUint :: "nat \<Rightarrow> byte list \<Rightarrow> nat \<Rightarrow> js_error + nat" where
  "getUint n view off =
     (if off + n \<le> length view then Inr (le_bytes view off n) else Inl RangeError)"

definition getUint8 :: "byte list \<Rightarrow> nat \<Rightarrow> js_error + nat" where
  "getUint8 = getUint 1"

definition getUint16 :: "byte list \<Rightarrow> nat \<Rightarrow> js_error + nat" where
  "getUint16 = getUint 2"

definition getUint32 :: "byte list \<Rightarrow> nat \<Rightarrow> js_error + nat" where
  "getUint32 = getUint 4"

definition getFloat32 :: "byte list \<Rightarrow> nat \<Rightarrow> js_error + number" where
  "getFloat32 view off = thenE (getUint 4 view off) (\<lambda>w. Inr (f32_of_bits w))"

text \<open>
  \<open>new Float32Array(buffer, byteOffset, length)\<close>: a view of \<open>length\<close> floats in the
  buffer. The constructor throws \<open>RangeError\<close> when \<open>byteOffset\<close> is not a multiple of
  the element size 4, and when the view does not fit in the buffer. The elements are
  read in the byte order of the platform, little-endian on every platform the viewer
  runs on.
\<close>

definition Float32Array_view :: "byte list \<Rightarrow> nat \<Rightarrow> nat \<Rightarrow> js_error + number list" where
  "Float32Array_view buffer byteOffset len =
     (if byteOffset mod 4 \<noteq> 0 then Inl RangeError
      else if length buffer < byteOffset + len * 4 then Inl RangeError
      else Inr (map (\<lambda>k. f32_of_bits (le_bytes buffer (byteOffset + 4 * k) 4)) [0..<len]))"

text \<open>
  \<open>rawData[k]\<close> on the \<open>Uint8Array\<close>: a byte as a number, or \<open>undefined\<close> outside
  the array; \<open>undefined / 255\<close> is \<open>NaN\<close>.
\<close>

definition u8_at :: "byte list \<Rightarrow> nat \<Rightarrow> number" where
  "u8_at rawData k = (if k < length rawData then Num (real (unat (rawData ! k))) else NaN)"

subsection \<open>The decoder\<close>

text \<open>
  The message field \<open>pointcloud\<close>: \<open>num_points\<close> (absent: \<open>None\<close>), the base64 text
  \<open>data\<close>, and the flags \<open>compressed\<close> and \<open>quantized\<close>.
\<close>

record payload =
  num_points :: "int option"
  data :: string
  compressed :: bool
  quantized :: bool

text \<open>
  The two library functions the decoder calls, as parameters: \<open>atob\<close> of the browser
  (the decoded bytes, which the source copies one by one into a fresh \<open>Uint8Array\<close>;
  \<open>None\<close> when it throws) and \<open>pako.inflate\<close> (\<open>None\<close> when it throws). The array
  that \<open>pako.inflate\<close> returns owns its buffer.
\<close>

record platform =
  atob :: "string \<Rightarrow> byte list option"
  inflate :: "byte list \<Rightarrow> byte list option"

definition raw_bytes :: "platform \<Rightarrow> payload \<Rightarrow> js_error + byte list" where
  "raw_bytes P d =
     (case atob P (data d) of
        None \<Rightarrow> Inl InvalidCharacterError
      | Some bytes \<Rightarrow>
          if compressed d then
            (case inflate P bytes of None \<Rightarrow> Inl InflateError | Some rawData \<Rightarrow> Inr rawData)
          else Inr bytes)"

text \<open>
  \<open>(q / maxVal) * range + min\<close> with \<open>maxVal = 65535\<close>, evaluated in doubles; the loop
  stores it into the \<open>Float32Array\<close>.
\<close>

definition dequantize :: "nat \<Rightarrow> number \<Rightarrow> number \<Rightarrow> number" where
  "dequantize q rng mn = jadd (jmul (div_const (Num (real q)) 65535) rng) mn"

record bounds =
  minX :: number
  minY :: number
  minZ :: number
  rangeX :: number
  rangeY :: number
  rangeZ :: number

definition read_bounds :: "byte list \<Rightarrow> nat \<Rightarrow> js_error + bounds" where
  "read_bounds view offset =
     thenE (getFloat32 view offset) (\<lambda>mx.
     thenE (getFloat32 view (offset + 4)) (\<lambda>my.
     thenE (getFloat32 view (offset + 8)) (\<lambda>mz.
     thenE (getFloat32 view (offset + 12)) (\<lambda>rx.
     thenE (getFloat32 view (offset + 16)) (\<lambda>ry.
     thenE (getFloat32 view (offset + 20)) (\<lambda>rz.
       Inr \<lparr> minX = mx, minY = my, minZ = mz, rangeX = rx, rangeY = ry, rangeZ = rz \<rparr>))))))"

definition read_q3 :: "byte list \<Rightarrow> nat \<Rightarrow> js_error + nat \<times> nat \<times> nat" where
  "read_q3 view offset =
     thenE (getUint16 view offset) (\<lambda>qx.
     thenE (getUint16 view (offset + 2)) (\<lambda>qy.
     thenE (getUint16 view (offset + 4)) (\<lambda>qz. Inr (qx, qy, qz))))"

text \<open>
  The loop \<open>for (let i = 0; i < numPoints; i++)\<close> over the quantized records; the result
  is the filled array and the offset after the last record. A throwing read abandons
  the array.
\<close>

function quantized_loop ::
  "byte list \<Rightarrow> bounds \<Rightarrow> nat \<Rightarrow> nat \<Rightarrow> nat \<Rightarrow> number list \<Rightarrow> js_error + number list \<times> nat" where
  "quantized_loop view b numPts i offset pointsArray =
     (if i < numPts then
        (case read_q3 view offset of
           Inl e \<Rightarrow> Inl e
         | Inr (qx, qy, qz) \<Rightarrow>
             quantized_loop view b numPts (i + 1) (offset + 6)
               (pointsArray[i * 3 := store_f32 (dequantize qx (rangeX b) (minX b)),
                            i * 3 + 1 := store_f32 (dequantize qy (rangeY b) (minY b)),
                            i * 3 + 2 := store_f32 (dequantize qz (rangeZ b) (minZ b))]))
      else Inr (pointsArray, offset))"
  by pat_completeness auto
termination
  by (relation "measure (\<lambda>(view, b, numPts, i, offset, pointsArray). numPts - i)") auto

declare quantized_loop.simps [simp del]

text \<open>
  The positions: the quantized branch, or the \<open>Float32Array\<close> view of the raw branch.
  Both give the array and the offset after the position data. Memory is not bounded:
  \<open>new Float32Array(n)\<close> does not fail.
\<close>

definition read_points :: "bool \<Rightarrow> byte list \<Rightarrow> nat \<Rightarrow> nat \<Rightarrow> js_error + number list \<times> nat" where
  "read_points quant rawData numPts offset =
     (if quant then
        thenE (read_bounds rawData offset) (\<lambda>b.
          quantized_loop rawData b numPts 0 (offset + 24) (new_Float32Array (numPts * 3)))
      else
        thenE (Float32Array_view rawData offset (numPts * 3)) (\<lambda>pts.
          Inr (pts, offset + numPts * 3 * 4)))"

definition read_colors :: "byte list \<Rightarrow> nat \<Rightarrow> nat \<Rightarrow> number list" where
  "read_colors rawData offset numPts =
     map (\<lambda>i. store_f32 (div_const (u8_at rawData (offset + i)) 255)) [0..<numPts * 3]"

text \<open>The body of the \<open>try\<close> block after the bytes are there: header, positions, colours.\<close>

definition parse :: "bool \<Rightarrow> byte list \<Rightarrow> js_error + decoded" where
  "parse quant rawData =
     thenE (getUint32 rawData 0) (\<lambda>numPts.
     thenE (getUint8 rawData 4) (\<lambda>hc.
     thenE (read_points quant rawData numPts 5) (\<lambda>(pts, offset).
       Inr \<lparr> points = Some pts,
             colors = (if hc = 1 then Some (read_colors rawData offset numPts) else None),
             numPoints = numPts \<rparr>)))"

definition empty_result :: decoded where
  "empty_result = \<lparr> points = None, colors = None, numPoints = 0 \<rparr>"

text \<open>
  \<open>decodePointCloud(data)\<close>; a falsy \<open>data\<close> is \<open>None\<close>. The \<open>catch\<close> block logs the
  error and returns the empty result.
\<close>

definition decodePointCloud :: "platform \<Rightarrow> payload option \<Rightarrow> decoded" where
  "decodePointCloud P dt =
     (case dt of
        None \<Rightarrow> empty_result
      | Some d \<Rightarrow>
          if num_points d = Some 0 then empty_result
          else (case thenE (raw_bytes P d) (parse (quantized d)) of
                  Inl error \<Rightarrow> empty_result
                | Inr r \<Rightarrow> r))"

section \<open>PointCloudViewer: limiting the displayed points\<close>

text \<open>
  The loop \<open>for (let i = 0, j = 0; i < numPoints && j < newNumPoints; i += step, j++)\<close>
  copying point \<open>i\<close> (and its colour, when \<open>colors\<close> is not \<open>null\<close>) to slot \<open>j\<close>.
  A write outside a typed array is ignored, as \<open>list_update\<close> does.
\<close>

definition copy3 :: "number list \<Rightarrow> nat \<Rightarrow> number list \<Rightarrow> nat \<Rightarrow> number list" where
  "copy3 src i dst j =
     dst[j * 3 := rd src (i * 3),
         j * 3 + 1 := rd src (i * 3 + 1),
         j * 3 + 2 := rd src (i * 3 + 2)]"

function subsample_loop ::
  "nat \<Rightarrow> nat \<Rightarrow> nat \<Rightarrow> number list \<Rightarrow> number list option \<Rightarrow> nat \<Rightarrow> nat
     \<Rightarrow> number list \<times> number list option \<Rightarrow> number list \<times> number list option" where
  "subsample_loop step numPts newNumPoints pts cols i j acc =
     (if i < numPts \<and> j < newNumPoints then
        subsample_loop step numPts newNumPoints pts cols (i + step) (j + 1)
          (copy3 pts i (fst acc) j,
           (case cols of None \<Rightarrow> snd acc
            | Some cs \<Rightarrow> map_option (\<lambda>newColors. copy3 cs i newColors j) (snd acc)))
      else acc)"
  by pat_completeness auto
termination
  by (relation "measure (\<lambda>(step, numPts, newNumPoints, pts, cols, i, j, acc). newNumPoints - j)") auto

declare subsample_loop.simps [simp del]

text \<open>
  What the effect hands to the geometry: \<open>None\<close> is the early \<open>return\<close> on
  \<open>!points || numPoints === 0\<close>. \<open>maxDisplayPoints\<close> is a non-negative integer (the
  slider runs from 1000 to 100000). With \<open>maxDisplayPoints = 0\<close> the quotient is
  \<open>Infinity\<close>, so \<open>newNumPoints\<close> is \<open>Math.floor(numPoints / Infinity) = 0\<close> and
  the loop body never runs; that case is written out (in HOL \<open>x / 0 = 0\<close>).
  Otherwise the operands are integers below \<open>2 ^ 32\<close>, for which \<open>Math.ceil\<close> and
  \<open>Math.floor\<close> of the floating-point quotient agree with those of the exact one.
\<close>

record displayed =
  d_points :: "number list"
  d_colors :: "number list option"
  displayedPoints :: nat

definition limit_points :: "decoded \<Rightarrow> nat \<Rightarrow> displayed option" where
  "limit_points r maxDisplayPoints =
     (case points r of
        None \<Rightarrow> None
      | Some pts \<Rightarrow>
          if numPoints r = 0 then None
          else if numPoints r > maxDisplayPoints then
            (let step = nat \<lceil>real (numPoints r) / real maxDisplayPoints\<rceil>;
                 newNumPoints = (if maxDisplayPoints = 0 then 0
                                 else nat \<lfloor>real (numPoints r) / real step\<rfloor>);
                 newPoints = new_Float32Array (newNumPoints * 3);
                 newColors = (case colors r of None \<Rightarrow> None
                              | Some cs \<Rightarrow> Some (new_Float32Array (newNumPoints * 3)));
                 res = subsample_loop step (numPoints r) newNumPoints pts (colors r) 0 0
                         (newPoints, newColors)
             in Some \<lparr> d_points = fst res, d_colors = snd res,
                       displayedPoints = newNumPoints \<rparr>)
          else Some \<lparr> d_points = pts, d_colors = colors r,
                      displayedPoints = numPoints r \<rparr>)"

text \<open>The three coordinates of point \<open>i\<close> of a flat array.\<close>

definition point_at :: "number list \<Rightarrow> nat \<Rightarrow> number list" where
  "point_at arr i = [rd arr (i * 3), rd arr (i * 3 + 1), rd arr (i * 3 + 2)]"

text \<open>A frame of five points with colours, used to run the reduction.\<close>

definition frame5 :: decoded where
  "frame5 = \<lparr> points = Some (map (\<lambda>k. Num (real k)) [0..<15]),
               colors = Some (map (\<lambda>k. Num (real k / 15)) [0..<15]),
               numPoints = 5 \<rparr>"

section \<open>Names for what the decoder reads\<close>

text \<open>
  The values at fixed places of the buffer, used to state what the decoder returns: a
  16-bit and a 32-bit float read, the six bounds after the 5-byte header, the three
  dequantized and stored coordinates of the record at an offset, and all the records.
\<close>

definition u16_at :: "byte list \<Rightarrow> nat \<Rightarrow> nat" where
  "u16_at view off = le_bytes view off 2"

definition f32_at :: "byte list \<Rightarrow> nat \<Rightarrow> number" where
  "f32_at view off = f32_of_bits (le_bytes view off 4)"

definition bounds_at :: "byte list \<Rightarrow> bounds" where
  "bounds_at view = \<lparr> minX = f32_at view 5, minY = f32_at view 9, minZ = f32_at view 13,
                       rangeX = f32_at view 17, rangeY = f32_at view 21, rangeZ = f32_at view 25 \<rparr>"

definition qpoint :: "byte list \<Rightarrow> bounds \<Rightarrow> nat \<Rightarrow> number list" where
  "qpoint view b off =
     [store_f32 (dequantize (u16_at view off) (rangeX b) (minX b)),
      store_f32 (dequantize (u16_at view (off + 2)) (rangeY b) (minY b)),
      store_f32 (dequantize (u16_at view (off + 4)) (rangeZ b) (minZ b))]"

definition quantized_points :: "byte list \<Rightarrow> number list" where
  "quantized_points rawData =
     concat (map (\<lambda>j. qpoint rawData (bounds_at rawData) (29 + 6 * j)) [0..<le_bytes rawData 0 4])"

section \<open>Concrete payloads\<close>

text \<open>
  A platform of which one value of \<open>atob\<close> is known: the bytes of one base64 text.
  Nothing is inflated.
\<close>

definition platform_of :: "string \<Rightarrow> byte list \<Rightarrow> platform" where
  "platform_of text bytes =
     \<lparr> atob = (\<lambda>s. if s = text then Some bytes else None), inflate = (\<lambda>b. None) \<rparr>"

definition message :: "int \<Rightarrow> string \<Rightarrow> bool \<Rightarrow> payload" where
  "message n text quant =
     \<lparr> num_points = Some n, data = text, compressed = False, quantized = quant \<rparr>"

text \<open>
  Header \<open>num_points = 2\<close>, \<open>has_colors = 0\<close>, then the raw little-endian floats
  \<open>0, 0, 0, 1, 1, 1\<close> (\<open>1.0\<close> is \<open>00 00 80 3f\<close>).
\<close>

definition scenarioA_bytes :: "byte list" where
  "scenarioA_bytes =
     [2, 0, 0, 0, 0,
      0, 0, 0, 0, 0, 0, 0, 0, 0, 0, 0, 0,
      0, 0, 128, 63, 0, 0, 128, 63, 0, 0, 128, 63]"

definition scenarioA_text :: string where
  "scenarioA_text = ''AgAAAAAAAAAAAAAAAAAAAAAAAIA/AACAPwAAgD8=''"

text \<open>
  A quantized header: the count, \<open>has_colors = 1\<close>, \<open>min = (0, 0, 0)\<close> and
  \<open>range = (1, 1, 1)\<close>.
\<close>

definition qheader :: "byte \<Rightarrow> byte list" where
  "qheader n =
     [n, 0, 0, 0, 1,
      0, 0, 0, 0, 0, 0, 0, 0, 0, 0, 0, 0,
      0, 0, 128, 63, 0, 0, 128, 63, 0, 0, 128, 63]"

text \<open>
  One quantized record \<open>(0, 65535, 32768)\<close>, announced with colours: without the
  three colour bytes, with one of them, and with all three.
\<close>

definition no_colors_bytes :: "byte list" where
  "no_colors_bytes = qheader 1 @ [0, 0, 255, 255, 0, 128]"

definition no_colors_text :: string where
  "no_colors_text = ''AQAAAAEAAAAAAAAAAAAAAAAAAIA/AACAPwAAgD8AAP//AIA=''"

definition one_color_bytes :: "byte list" where
  "one_color_bytes = qheader 1 @ [0, 0, 255, 255, 0, 128, 51]"

definition one_color_text :: string where
  "one_color_text = ''AQAAAAEAAAAAAAAAAAAAAAAAAIA/AACAPwAAgD8AAP//AIAz''"



text \<open>A quantized payload whose header announces no point.\<close>

definition zero_text :: string where
  "zero_text = ''AAAAAAEAAAAAAAAAAAAAAAAAAIA/AACAPwAAgD8=''"

section \<open>Hovered never overlaps selected\<close>

lemma hovered_fold_excl:
  "fold (\<lambda>h ids. if truthy (hovered h) \<and> \<not> has_id (hovered h) S then add_id (hovered h) ids else ids) hs A \<inter> S = A \<inter> S"
  by (induction hs arbitrary: A) (auto simp: has_id_def add_id_def truthy_def split: option.splits)

text \<open>
  C10. For every snapshot (any list of hand states) and every object, the overlay never
  marks the object both hovered and selected, and in the demo panel the set of hovered
  ids is disjoint from the set of selected ids, so no id gets both flags either.
\<close>

theorem hovered_excludes_selected:
  "(i < length objects \<longrightarrow>
      \<not> (isSelected (objectsWithState objects handStates ! i)
         \<and> isHovered (objectsWithState objects handStates ! i)))
   \<and> hoveredIds handStates \<inter> selectedIds handStates = {}
   \<and> demo_flags handStates k \<noteq> (True, True)"
proof -
  have a: "hoveredIds handStates \<inter> selectedIds handStates = {}"
    unfolding hoveredIds_def by (simp add: hovered_fold_excl)
  have b: "demo_flags handStates k \<noteq> (True, True)"
    using a by (auto simp: demo_flags_def)
  have c: "i < length objects \<longrightarrow>
      \<not> (isSelected (objectsWithState objects handStates ! i)
         \<and> isHovered (objectsWithState objects handStates ! i))"
    by (auto simp: objectsWithState_def nth_enumerate_eq split: prod.splits)
  from a b c show ?thesis by blast
qed

theorem hovered_excludes_selected_witness:
  "(0::nat) < length [\<lparr> obj_id = Some 7 \<rparr>]
   \<and> isSelected (objectsWithState [\<lparr> obj_id = Some 7 \<rparr>]
         [\<lparr> selected = Some 7, hovered = None \<rparr>, \<lparr> selected = None, hovered = Some 7 \<rparr>] ! 0)
   \<and> \<not> isHovered (objectsWithState [\<lparr> obj_id = Some 7 \<rparr>]
         [\<lparr> selected = Some 7, hovered = None \<rparr>, \<lparr> selected = None, hovered = Some 7 \<rparr>] ! 0)
   \<and> demo_flags [\<lparr> selected = Some 7, hovered = None \<rparr>, \<lparr> selected = None, hovered = Some 7 \<rparr>] 7
       = (True, False)"
  using hovered_excludes_selected[of 0 "[\<lparr> obj_id = Some 7 \<rparr>]"
          "[\<lparr> selected = Some 7, hovered = None \<rparr>, \<lparr> selected = None, hovered = Some 7 \<rparr>]" 7]
  by (simp add: objectsWithState_def overlay_sets_def overlay_step_def truthy_def add_id_def
        id_or_index_def demo_flags_def selectedIds_def hoveredIds_def has_id_def)

section \<open>The reduction keeps every stride-th point and respects the budget\<close>

lemma copy3_append:
  assumes "length dst = n * 3" "j < n"
  shows "copy3 src i dst j = take (j * 3) dst @ point_at src i @ drop (j * 3 + 3) dst"
proof -
  have l: "j * 3 + 3 \<le> length dst" using assms by simp
  show ?thesis
    apply (rule nth_equalityI)
    using l apply (simp add: copy3_def point_at_def)
    using l apply (auto simp: copy3_def point_at_def nth_append nth_list_update min_def nth_Cons' )
    done
qed

lemma subsample_loop_fst:
  assumes "length (fst acc) = m * 3" "j \<le> m" "0 < step" "m * step \<le> n + step - 1" "i = j * step"
  shows "fst (subsample_loop step n m pts cols i j acc)
         = take (j * 3) (fst acc) @ concat (map (\<lambda>k. point_at pts (k * step)) [j..<m])"
  using assms
proof (induction step n m pts cols i j acc rule: subsample_loop.induct)
  case (1 step numPts newNumPoints pts cols i j acc)
  show ?case
  proof (cases "j < newNumPoints")
    case False
    with 1 show ?thesis by (subst subsample_loop.simps) simp
  next
    case True
    have "j * step + step \<le> newNumPoints * step"
      using True by (metis Suc_leI mult_Suc mult_le_mono1 add.commute)
    then have iN: "i < numPts" using 1(4,5,6) by simp
    have c: "copy3 pts i (fst acc) j = take (j * 3) (fst acc) @ point_at pts i @ drop (j * 3 + 3) (fst acc)"
      using copy3_append[OF 1(2) True] .
    have len: "length (copy3 pts i (fst acc) j) = newNumPoints * 3"
      using 1(2) by (simp add: copy3_def)
    have ih: "fst (subsample_loop step numPts newNumPoints pts cols (i + step) (j + 1)
          (copy3 pts i (fst acc) j,
           (case cols of None \<Rightarrow> snd acc
            | Some cs \<Rightarrow> map_option (\<lambda>newColors. copy3 cs i newColors j) (snd acc))))
       = take ((j + 1) * 3) (copy3 pts i (fst acc) j) @ concat (map (\<lambda>k. point_at pts (k * step)) [j + 1..<newNumPoints])"
      using 1(1) iN True len 1(3-6) by simp
    have tk: "take ((j + 1) * 3) (copy3 pts i (fst acc) j) = take (j * 3) (fst acc) @ point_at pts i"
      using 1(2) True by (simp add: c point_at_def)
    have up: "[j..<newNumPoints] = j # [j + 1..<newNumPoints]"
      using True by (simp add: upt_conv_Cons)
    show ?thesis
      apply (subst subsample_loop.simps)
      using iN True ih tk up 1(6) by simp
  qed
qed

lemma subsample_loop_snd_None:
  "snd (subsample_loop step n m pts None i j acc) = snd acc"
  by (induction step n m pts "None :: number list option" i j acc rule: subsample_loop.induct)
     (subst subsample_loop.simps, simp)


lemma subsample_loop_snd_Some:
  assumes "snd acc = Some nc" "length nc = m * 3" "j \<le> m" "0 < step" "m * step \<le> n + step - 1" "i = j * step"
  shows "snd (subsample_loop step n m pts (Some cs) i j acc)
         = Some (take (j * 3) nc @ concat (map (\<lambda>k. point_at cs (k * step)) [j..<m]))"
  using assms
proof (induction step n m pts "Some cs" i j acc arbitrary: nc rule: subsample_loop.induct)
  case (1 step numPts newNumPoints pts i j acc)
  show ?case
  proof (cases "j < newNumPoints")
    case False
    with 1 show ?thesis by (subst subsample_loop.simps) simp
  next
    case True
    have "j * step + step \<le> newNumPoints * step"
      using True by (metis Suc_leI mult_Suc mult_le_mono1 add.commute)
    then have iN: "i < numPts" using 1(5,6,7) by simp
    have c: "copy3 cs i nc j = take (j * 3) nc @ point_at cs i @ drop (j * 3 + 3) nc"
      using copy3_append[OF 1(3) True] .
    have len: "length (copy3 cs i nc j) = newNumPoints * 3"
      using 1(3) by (simp add: copy3_def)
    have ih: "snd (subsample_loop step numPts newNumPoints pts (Some cs) (i + step) (j + 1)
          (copy3 pts i (fst acc) j, Some (copy3 cs i nc j)))
       = Some (take ((j + 1) * 3) (copy3 cs i nc j) @ concat (map (\<lambda>k. point_at cs (k * step)) [j + 1..<newNumPoints]))"
      using 1(1)[of "copy3 cs i nc j"] iN True len 1(2-7) by simp
    have tk: "take ((j + 1) * 3) (copy3 cs i nc j) = take (j * 3) nc @ point_at cs i"
      using 1(3) True by (simp add: c point_at_def)
    have up: "[j..<newNumPoints] = j # [j + 1..<newNumPoints]"
      using True by (simp add: upt_conv_Cons)
    show ?thesis
      apply (subst subsample_loop.simps)
      using iN True ih tk up 1(2,7) by simp
  qed
qed

lemma step_pos: assumes "b < n" "0 < (b::nat)" shows "0 < nat \<lceil>real n / real b\<rceil>"
proof -
  have "1 < real n / real b" using assms by simp
  then show ?thesis by linarith
qed

lemma floor_div_nat: "nat \<lfloor>real n / real s\<rfloor> = n div s"
  by (simp add: floor_divide_of_nat_eq)

lemma step_times_budget: assumes "0 < (b::nat)" shows "n \<le> nat \<lceil>real n / real b\<rceil> * b"
proof -
  define s where "s = nat \<lceil>real n / real b\<rceil>"
  have "real n / real b \<le> real s"
    unfolding s_def by linarith
  then have "real n \<le> real s * real b"
    using assms by (simp add: pos_divide_le_eq)
  then have "n \<le> s * b" by (metis of_nat_le_iff of_nat_mult)
  then show ?thesis by (simp add: s_def)
qed

lemma count_le_budget: assumes "0 < (b::nat)" shows "n div nat \<lceil>real n / real b\<rceil> \<le> b"
proof (cases "nat \<lceil>real n / real b\<rceil> = 0")
  case True then show ?thesis by simp
next
  case False
  have "n div nat \<lceil>real n / real b\<rceil> \<le> (nat \<lceil>real n / real b\<rceil> * b) div nat \<lceil>real n / real b\<rceil>"
    by (rule div_le_mono[OF step_times_budget[OF assms]])
  also have "\<dots> = b" using False by simp
  finally show ?thesis .
qed

lemma limit_points_reduced:
  assumes "points r = Some pts" "maxDisplayPoints < numPoints r" "0 < maxDisplayPoints"
  defines "stride \<equiv> nat \<lceil>real (numPoints r) / real maxDisplayPoints\<rceil>"
  shows "limit_points r maxDisplayPoints =
           Some \<lparr> d_points = concat (map (\<lambda>j. point_at pts (j * stride)) [0..<numPoints r div stride]),
                  d_colors = map_option (\<lambda>cs. concat (map (\<lambda>j. point_at cs (j * stride)) [0..<numPoints r div stride])) (colors r),
                  displayedPoints = numPoints r div stride \<rparr>"
proof -
  let ?n = "numPoints r" and ?m = "numPoints r div stride"
  have sp: "0 < stride" unfolding stride_def by (rule step_pos[OF assms(2,3)])
  have ms: "?m * stride \<le> ?n + stride - 1"
  proof -
    have "?m * stride \<le> ?n" by simp
    then show ?thesis using sp by linarith
  qed
  have p: "fst (subsample_loop stride ?n ?m pts (colors r) 0 0 (new_Float32Array (?m * 3), cc))
        = concat (map (\<lambda>j. point_at pts (j * stride)) [0..<?m])" for cc
    using subsample_loop_fst[of "(new_Float32Array (?m * 3), cc)" ?m 0 stride ?n 0 pts "colors r"] sp ms
    by (simp add: new_Float32Array_def)
  have c: "snd (subsample_loop stride ?n ?m pts (colors r) 0 0 (new_Float32Array (?m * 3),
             (case colors r of None \<Rightarrow> None | Some cs \<Rightarrow> Some (new_Float32Array (?m * 3)))))
        = map_option (\<lambda>cs. concat (map (\<lambda>j. point_at cs (j * stride)) [0..<?m])) (colors r)"
  proof (cases "colors r")
    case None then show ?thesis by (simp add: subsample_loop_snd_None)
  next
    case (Some cs)
    show ?thesis
      using subsample_loop_snd_Some[of "(new_Float32Array (?m * 3), Some (new_Float32Array (?m * 3)))" "new_Float32Array (?m * 3)" ?m 0 stride ?n 0 pts cs] sp ms Some
      by (simp add: new_Float32Array_def)
  qed
  have n0: "?n \<noteq> 0" using assms(2) by simp
  show ?thesis
    unfolding limit_points_def
    using assms(1,2,3) n0 p c
    by (simp add: Let_def floor_div_nat stride_def[symmetric])
qed

text \<open>
  C3. When the decoded frame has more points than the budget \<open>maxDisplayPoints\<close>, the
  viewer takes \<open>stride = ceil(numPoints / maxDisplayPoints)\<close> and keeps the points with
  indices \<open>0, stride, 2 * stride, ...\<close> in that order, \<open>floor(numPoints / stride)\<close> of
  them, each with its colour when the frame has colours. For 100000 points and a budget
  of 25000 the stride is 4 and 25000 points are kept.
\<close>

theorem limit_points_stride:
  assumes "points r = Some pts" and "maxDisplayPoints < numPoints r" and "0 < maxDisplayPoints"
  defines "stride \<equiv> nat \<lceil>real (numPoints r) / real maxDisplayPoints\<rceil>"
  defines "kept \<equiv> nat \<lfloor>real (numPoints r) / real stride\<rfloor>"
  shows "limit_points r maxDisplayPoints =
           Some \<lparr> d_points = concat (map (\<lambda>j. point_at pts (j * stride)) [0..<kept]),
                  d_colors = map_option (\<lambda>cs. concat (map (\<lambda>j. point_at cs (j * stride)) [0..<kept]))
                               (colors r),
                  displayedPoints = kept \<rparr>
         \<and> (numPoints r = 100000 \<and> maxDisplayPoints = 25000 \<longrightarrow> stride = 4 \<and> kept = 25000)"
proof -
  have k: "kept = numPoints r div stride"
    unfolding kept_def by (rule floor_div_nat)
  have a: "limit_points r maxDisplayPoints =
           Some \<lparr> d_points = concat (map (\<lambda>j. point_at pts (j * stride)) [0..<kept]),
                  d_colors = map_option (\<lambda>cs. concat (map (\<lambda>j. point_at cs (j * stride)) [0..<kept]))
                               (colors r),
                  displayedPoints = kept \<rparr>"
    unfolding k stride_def by (rule limit_points_reduced[OF assms(1,2,3)])
  have b: "numPoints r = 100000 \<and> maxDisplayPoints = 25000 \<longrightarrow> stride = 4 \<and> kept = 25000"
    unfolding k stride_def by simp
  from a b show ?thesis by blast
qed

theorem limit_points_stride_witness:
  "points frame5 = Some (map (\<lambda>k. Num (real k)) [0..<15]) \<and> (2::nat) < numPoints frame5 \<and> (0::nat) < 2
   \<and> limit_points frame5 2 =
       Some \<lparr> d_points = [Num 0, Num 1, Num 2],
              d_colors = Some [Num 0, Num (1 / 15), Num (2 / 15)],
              displayedPoints = 1 \<rparr>"
  using limit_points_stride[of frame5 "map (\<lambda>k. Num (real k)) [0..<15]" 2]
  by (simp add: frame5_def point_at_def rd_def upt_rec)

text \<open>
  C4. For every budget \<open>b \<ge> 1\<close> the viewer displays at most \<open>b\<close> points, and a frame
  with at most \<open>b\<close> points is displayed as it is, positions and colours unchanged.
\<close>

theorem limit_points_budget:
  assumes "1 \<le> b"
  shows "(\<forall>d. limit_points r b = Some d \<longrightarrow>
            displayedPoints d \<le> b
            \<and> (b < numPoints r \<longrightarrow> length (d_points d) = 3 * displayedPoints d))
         \<and> (numPoints r \<le> b \<and> points r = Some pts \<and> numPoints r \<noteq> 0 \<longrightarrow>
              limit_points r b = Some \<lparr> d_points = pts, d_colors = colors r,
                                        displayedPoints = numPoints r \<rparr>)"
proof -
  have b0: "0 < b" using assms by simp
  have small: "numPoints r \<le> b \<and> points r = Some pts \<and> numPoints r \<noteq> 0 \<longrightarrow>
              limit_points r b = Some \<lparr> d_points = pts, d_colors = colors r,
                                        displayedPoints = numPoints r \<rparr>"
    by (simp add: limit_points_def)
  have le: "displayedPoints d \<le> b \<and> (b < numPoints r \<longrightarrow> length (d_points d) = 3 * displayedPoints d)"
    if d: "limit_points r b = Some d" for d
  proof (cases "b < numPoints r")
    case False
    then show ?thesis using d
      by (auto simp: limit_points_def split: option.splits if_splits)
  next
    case True
    from d obtain ps where ps: "points r = Some ps"
      by (auto simp: limit_points_def split: option.splits)
    let ?s = "nat \<lceil>real (numPoints r) / real b\<rceil>"
    have dd: "d = \<lparr> d_points = concat (map (\<lambda>j. point_at ps (j * ?s)) [0..<numPoints r div ?s]),
                  d_colors = map_option (\<lambda>cs. concat (map (\<lambda>j. point_at cs (j * ?s)) [0..<numPoints r div ?s])) (colors r),
                  displayedPoints = numPoints r div ?s \<rparr>"
      using limit_points_reduced[OF ps True b0] d by simp
    have len: "length (concat (map (\<lambda>j. point_at ps (j * ?s)) [0..<m])) = 3 * m" for m
      by (induction m) (simp_all add: point_at_def)
    show ?thesis
      using count_le_budget[OF b0, of "numPoints r"] len by (simp add: dd)
  qed
  from small le show ?thesis by blast
qed

theorem limit_points_budget_witness:
  "(1::nat) \<le> 2 \<and> limit_points frame5 2 \<noteq> None
   \<and> displayedPoints (the (limit_points frame5 2)) \<le> 2
   \<and> length (d_points (the (limit_points frame5 2))) = 3
   \<and> limit_points frame5 5 = Some \<lparr> d_points = map (\<lambda>k. Num (real k)) [0..<15],
         d_colors = colors frame5, displayedPoints = 5 \<rparr>"
proof -
  have e: "limit_points frame5 2 =
       Some \<lparr> d_points = [Num 0, Num 1, Num 2],
              d_colors = Some [Num 0, Num (1 / 15), Num (2 / 15)],
              displayedPoints = 1 \<rparr>"
    using limit_points_reduced[of frame5 "map (\<lambda>k. Num (real k)) [0..<15]" 2]
    by (simp add: frame5_def point_at_def rd_def upt_rec)
  show ?thesis
    using limit_points_budget[of 2 frame5 "map (\<lambda>k. Num (real k)) [0..<15]"]
          limit_points_budget[of 5 frame5 "map (\<lambda>k. Num (real k)) [0..<15]"] e
    by (simp add: frame5_def)
qed

section \<open>Rounding\<close>

lemma pow2_powr: "pow2 k = 2 powr real_of_int k"
proof (cases "0 \<le> k")
  case True
  then have "(2::real) powr real_of_int k = 2 ^ nat k"
    by (metis of_int_of_nat_eq zero_less_numeral powr_realpow of_nat_nat)
  then show ?thesis using True by (simp add: pow2_def)
next
  case False
  then have "(2::real) powr real_of_int (- k) = 2 ^ nat (- k)"
    by (metis of_int_of_nat_eq zero_less_numeral powr_realpow of_nat_nat neg_0_le_iff_le linear)
  moreover have "(2::real) powr real_of_int k = 1 / (2 powr real_of_int (- k))"
    by (simp add: powr_minus field_simps)
  ultimately have "(2::real) powr real_of_int k = 1 / 2 ^ nat (- k)"
    by (simp only:)
  then show ?thesis using False by (simp add: pow2_def)
qed

lemma pow2_pos: "0 < pow2 k"
  by (simp add: pow2_powr)

lemma binade_eq:
  assumes "pow2 k \<le> \<bar>x\<bar>" and "\<bar>x\<bar> < pow2 (k + 1)"
  shows "\<lfloor>log 2 \<bar>x\<bar>\<rfloor> = k"
proof -
  have "0 < \<bar>x\<bar>" using assms(1) pow2_pos[of k] by linarith
  then show ?thesis
    using assms by (simp add: floor_log_eq_powr_iff pow2_powr)
qed

lemma round_to_binade:
  assumes "pow2 k \<le> \<bar>x\<bar>" and "\<bar>x\<bar> < pow2 (k + 1)"
  shows "round_to p emin emax x =
           (if pow2 (emax + 1) \<le> \<bar>of_int (round_half_even (x / pow2 (max k emin - int p + 1)))
                                      * pow2 (max k emin - int p + 1)\<bar>
            then (if 0 < x then PInf else NInf)
            else Num (of_int (round_half_even (x / pow2 (max k emin - int p + 1)))
                        * pow2 (max k emin - int p + 1)))"
proof -
  have "x \<noteq> 0" using assms(1) pow2_pos[of k] by auto
  then show ?thesis
    by (simp add: round_to_def binade_eq[OF assms] Let_def)
qed

lemma to_f64_zero: "to_f64 0 = Num 0" and to_f32_zero: "to_f32 0 = Num 0"
  by (simp_all add: to_f64_def to_f32_def round_to_def)

lemma to_f64_one: "to_f64 1 = Num 1"
  unfolding to_f64_def
  by (subst round_to_binade[of 0]) (simp_all add: pow2_def round_half_even_def)

lemma to_f32_one: "to_f32 1 = Num 1"
  unfolding to_f32_def
  by (subst round_to_binade[of 0]) (simp_all add: pow2_def round_half_even_def)

lemma to_f64_half: "to_f64 (32768 / 65535) = Num (281479271743489 / 562949953421312)"
  unfolding to_f64_def
  by (subst round_to_binade[of "- 1"]) (simp_all add: pow2_def round_half_even_def)

lemma to_f64_half': "to_f64 (281479271743489 / 562949953421312) = Num (281479271743489 / 562949953421312)"
  unfolding to_f64_def
  by (subst round_to_binade[of "- 1"]) (simp_all add: pow2_def round_half_even_def)

lemma to_f32_half: "to_f32 (281479271743489 / 562949953421312) = Num (65537 / 131072)"
  unfolding to_f32_def
  by (subst round_to_binade[of "- 1"]) (simp_all add: pow2_def round_half_even_def)

lemma to_f64_fifth: "to_f64 (1 / 5) = Num (3602879701896397 / 18014398509481984)"
  unfolding to_f64_def
  by (subst round_to_binade[of "- 3"]) (simp_all add: pow2_def round_half_even_def)

lemma to_f32_fifth: "to_f32 (3602879701896397 / 18014398509481984) = Num (13421773 / 67108864)"
  unfolding to_f32_def
  by (subst round_to_binade[of "- 3"]) (simp_all add: pow2_def round_half_even_def)

lemma round_half_even_nonneg: "0 \<le> m \<Longrightarrow> 0 \<le> round_half_even m"
  by (auto simp: round_half_even_def Let_def)

lemma round_half_even_le:
  assumes "m \<le> of_int N"
  shows "round_half_even m \<le> N"
proof (cases "m = of_int \<lfloor>m\<rfloor>")
  case True
  then have "round_half_even m = \<lfloor>m\<rfloor>" by (simp add: round_half_even_def Let_def)
  then show ?thesis using assms by (simp add: floor_le_iff)
next
  case False
  then have "m \<noteq> of_int N" by (metis floor_of_int)
  then have "m < of_int N" using assms by simp
  then have "\<lfloor>m\<rfloor> < N" by (simp add: floor_less_iff)
  then show ?thesis by (auto simp: round_half_even_def Let_def)
qed

lemma round_to_unit:
  assumes "0 \<le> x" and "x \<le> 1" and "1 \<le> p" and "emin \<le> 0" and "0 \<le> emax"
  shows "\<exists>y. round_to p emin emax x = Num y \<and> 0 \<le> y \<and> y \<le> 1"
proof (cases "x = 0")
  case True
  then show ?thesis by (simp add: round_to_def)
next
  case False
  then have xp: "0 < x" using assms(1) by simp
  define e where "e = max \<lfloor>log 2 \<bar>x\<bar>\<rfloor> emin"
  define j where "j = e - int p + 1"
  have "log 2 \<bar>x\<bar> \<le> 0" using xp assms(2) by simp
  then have "\<lfloor>log 2 \<bar>x\<bar>\<rfloor> \<le> 0" by (simp add: floor_le_iff)
  then have "e \<le> 0" using assms(4) unfolding e_def by (rule max.boundedI)
  then have j0: "j \<le> 0" using assms(3) unfolding j_def by linarith
  define n where "n = nat (- j)"
  have ulp: "pow2 j = 1 / 2 ^ n"
    using j0 by (cases "j = 0") (simp_all add: pow2_def n_def)
  have m: "x / pow2 j = x * 2 ^ n" by (simp add: ulp)
  have "x * 2 ^ n \<le> of_int (2 ^ n)" using assms(2) by simp
  then have hi: "round_half_even (x / pow2 j) \<le> 2 ^ n"
    unfolding m by (rule round_half_even_le)
  have lo: "0 \<le> round_half_even (x / pow2 j)"
    unfolding m using assms(1) by (intro round_half_even_nonneg) simp
  define y where "y = of_int (round_half_even (x / pow2 j)) * pow2 j"
  have y0: "0 \<le> y" using lo pow2_pos[of j] by (simp add: y_def)
  have "of_int (round_half_even (x / pow2 j)) \<le> (2::real) ^ n"
    using hi by (metis of_int_le_iff of_int_numeral of_int_power)
  then have y1: "y \<le> 1" by (simp add: y_def ulp field_simps)
  have "(2::real) ^ 1 \<le> 2 ^ nat (emax + 1)"
    using assms(5) by (intro power_increasing) auto
  then have "\<not> pow2 (emax + 1) \<le> \<bar>y\<bar>"
    using y0 y1 assms(5) by (simp add: pow2_def)
  then have "round_to p emin emax x = Num y"
    using False by (simp add: round_to_def Let_def e_def[symmetric] j_def[symmetric] y_def[symmetric])
  then show ?thesis using y0 y1 by blast
qed

lemma channel_unit:
  assumes "b \<le> (255::nat)"
  shows "\<exists>z. store_f32 (div_const (Num (real b)) 255) = Num z \<and> 0 \<le> z \<and> z \<le> 1"
proof -
  have "0 \<le> real b / 255" "real b / 255 \<le> 1" using assms by simp_all
  from round_to_unit[OF this, of 53 "- 1022" 1023]
  obtain y where y: "to_f64 (real b / 255) = Num y" "0 \<le> y" "y \<le> 1"
    by (auto simp: to_f64_def)
  from round_to_unit[OF y(2,3), of 24 "- 126" 127]
  obtain z where z: "to_f32 y = Num z" "0 \<le> z" "z \<le> 1"
    by (auto simp: to_f32_def)
  show ?thesis using y z by (simp add: store_f32_def)
qed

section \<open>What the decoder returns\<close>

lemma thenE_simps [simp]: "thenE (Inl e) f = Inl e" "thenE (Inr x) f = f x"
  by (simp_all add: thenE_def)

lemma read_q3_eq:
  "read_q3 view off =
     (if off + 6 \<le> length view
      then Inr (u16_at view off, u16_at view (off + 2), u16_at view (off + 4))
      else Inl RangeError)"
  by (simp add: read_q3_def getUint16_def getUint_def u16_at_def)

lemma read_bounds_eq:
  "read_bounds view 5 = (if 29 \<le> length view then Inr (bounds_at view) else Inl RangeError)"
  by (simp add: read_bounds_def getFloat32_def getUint_def bounds_at_def f32_at_def)

lemma update3_append:
  assumes "length arr = n * 3" "i < n"
  shows "arr[i * 3 := a, i * 3 + 1 := b, i * 3 + 2 := c] = take (i * 3) arr @ [a, b, c] @ drop (i * 3 + 3) arr"
proof -
  have l: "i * 3 + 3 \<le> length arr" using assms by simp
  show ?thesis
    apply (rule nth_equalityI)
    using l apply simp
    using l apply (auto simp: nth_append nth_list_update min_def nth_Cons')
    done
qed

lemma quantized_loop_eq:
  assumes "length arr = n * 3" "i \<le> n"
  shows "quantized_loop view b n i off arr =
          (if n \<le> i \<or> off + 6 * (n - i) \<le> length view
           then Inr (take (i * 3) arr @ concat (map (\<lambda>j. qpoint view b (off + 6 * (j - i))) [i..<n]),
                     off + 6 * (n - i))
           else Inl RangeError)"
  using assms
proof (induction view b n i off arr rule: quantized_loop.induct)
  case (1 view b numPts i offset pointsArray)
  show ?case
  proof (cases "i < numPts")
    case False
    with 1(2,3) show ?thesis by (subst quantized_loop.simps) simp
  next
    case True
    show ?thesis
    proof (cases "offset + 6 \<le> length view")
      case False
      then show ?thesis using True
        by (subst quantized_loop.simps) (simp add: read_q3_eq)
    next
      case fits: True
      let ?arr = "pointsArray[i * 3 := store_f32 (dequantize (u16_at view offset) (rangeX b) (minX b)),
                            i * 3 + 1 := store_f32 (dequantize (u16_at view (offset + 2)) (rangeY b) (minY b)),
                            i * 3 + 2 := store_f32 (dequantize (u16_at view (offset + 4)) (rangeZ b) (minZ b))]"
      have arr: "?arr = take (i * 3) pointsArray @ qpoint view b offset @ drop (i * 3 + 3) pointsArray"
        unfolding qpoint_def by (rule update3_append[OF 1(2) True])
      have ih: "quantized_loop view b numPts (i + 1) (offset + 6) ?arr =
          (if numPts \<le> i + 1 \<or> offset + 6 + 6 * (numPts - (i + 1)) \<le> length view
           then Inr (take ((i + 1) * 3) ?arr @ concat (map (\<lambda>j. qpoint view b (offset + 6 + 6 * (j - (i + 1)))) [i + 1..<numPts]),
                     offset + 6 + 6 * (numPts - (i + 1)))
           else Inl RangeError)"
        using 1(1)[OF True]
              fits True 1(2) by (simp add: read_q3_eq)
      have tk: "take ((i + 1) * 3) ?arr = take (i * 3) pointsArray @ qpoint view b offset"
      proof -
        have "take ((i + 1) * 3) (take (i * 3) pointsArray @ qpoint view b offset @ drop (i * 3 + 3) pointsArray)
              = take (i * 3) pointsArray @ qpoint view b offset"
          using 1(2) True by (simp add: qpoint_def)
        then show ?thesis by (simp only: arr)
      qed
      have up: "[i..<numPts] = i # [i + 1..<numPts]"
        using True by (simp add: upt_conv_Cons)
      have mp: "map (\<lambda>j. qpoint view b (offset + 6 + 6 * (j - (i + 1)))) [i + 1..<numPts]
              = map (\<lambda>j. qpoint view b (offset + 6 * (j - i))) [i + 1..<numPts]"
      proof (rule map_cong[OF refl])
        fix j assume "j \<in> set [i + 1..<numPts]"
        then have "offset + 6 + 6 * (j - (i + 1)) = offset + 6 * (j - i)" by auto
        then show "qpoint view b (offset + 6 + 6 * (j - (i + 1))) = qpoint view b (offset + 6 * (j - i))"
          by (rule arg_cong)
      qed
      have off: "offset + 6 + 6 * (numPts - (i + 1)) = offset + 6 * (numPts - i)"
        using True by auto
      have cond: "(numPts \<le> i + 1 \<or> offset + 6 * (numPts - i) \<le> length view)
                  = (offset + 6 * (numPts - i) \<le> length view)"
        using True fits by auto
      have step: "quantized_loop view b numPts i offset pointsArray
                  = quantized_loop view b numPts (i + 1) (offset + 6) ?arr"
        by (subst quantized_loop.simps) (simp only: True fits read_q3_eq if_True sum.case prod.case)
      have lhs: "quantized_loop view b numPts (i + 1) (offset + 6) ?arr =
          (if offset + 6 * (numPts - i) \<le> length view
           then Inr (take (i * 3) pointsArray @ qpoint view b offset
                      @ concat (map (\<lambda>j. qpoint view b (offset + 6 * (j - i))) [i + 1..<numPts]),
                     offset + 6 * (numPts - i))
           else Inl RangeError)"
        by (simp only: ih tk mp off cond append_assoc)
      have rhs: "(if numPts \<le> i \<or> offset + 6 * (numPts - i) \<le> length view
           then Inr (take (i * 3) pointsArray @ concat (map (\<lambda>j. qpoint view b (offset + 6 * (j - i))) [i..<numPts]),
                     offset + 6 * (numPts - i))
           else Inl RangeError) =
          (if offset + 6 * (numPts - i) \<le> length view
           then Inr (take (i * 3) pointsArray @ qpoint view b offset
                      @ concat (map (\<lambda>j. qpoint view b (offset + 6 * (j - i))) [i + 1..<numPts]),
                     offset + 6 * (numPts - i))
           else Inl RangeError)"
        using True by (simp add: up)
      show ?thesis by (simp only: step lhs rhs)
    qed
  qed
qed

lemma raw_view_fails: "Float32Array_view buf 5 len = Inl RangeError"
  by (simp add: Float32Array_view_def)

lemma parse_raw: "parse False rawData = Inl RangeError"
  by (simp add: parse_def read_points_def raw_view_fails getUint32_def getUint8_def getUint_def)

lemma parse_quantized:
  "parse True rawData =
     (if 29 + 6 * le_bytes rawData 0 4 \<le> length rawData
      then Inr \<lparr> points = Some (quantized_points rawData),
                 colors = (if unat (rawData ! 4) = 1
                           then Some (read_colors rawData (29 + 6 * le_bytes rawData 0 4) (le_bytes rawData 0 4))
                           else None),
                 numPoints = le_bytes rawData 0 4 \<rparr>
      else Inl RangeError)"
proof (cases "29 \<le> length rawData")
  case False
  then show ?thesis
    by (simp add: parse_def read_points_def read_bounds_eq getUint32_def getUint8_def getUint_def)
next
  case True
  let ?n = "le_bytes rawData 0 4"
  have h4: "getUint32 rawData 0 = Inr ?n" and h1: "getUint8 rawData 4 = Inr (unat (rawData ! 4))"
    using True by (simp_all add: getUint32_def getUint8_def getUint_def)
  have lp: "quantized_loop rawData (bounds_at rawData) ?n 0 29 (new_Float32Array (?n * 3)) =
          (if 29 + 6 * ?n \<le> length rawData
           then Inr (quantized_points rawData, 29 + 6 * ?n) else Inl RangeError)"
    using quantized_loop_eq[of "new_Float32Array (?n * 3)" ?n 0 rawData "bounds_at rawData" 29] True
    by (auto simp: new_Float32Array_def quantized_points_def)
  show ?thesis
    using True by (simp add: parse_def h4 h1 read_points_def read_bounds_eq lp)
qed

section \<open>Running the decoder on payloads\<close>

lemma le_bytes_2: "le_bytes buf off 2 = unat (buf ! off) + 256 * unat (buf ! (off + 1))"
proof -
  have two: "(2::nat) = Suc (Suc 0)" by simp
  show ?thesis by (subst two) simp
qed

lemma le_bytes_4:
  "le_bytes buf off 4 =
     unat (buf ! off) + 256 * (unat (buf ! (off + 1))
       + 256 * (unat (buf ! (off + 2)) + 256 * unat (buf ! (off + 3))))"
proof -
  have four: "(4::nat) = Suc (Suc (Suc (Suc 0)))" by simp
  show ?thesis by (subst four) (simp add: numeral_3_eq_3)
qed

lemma decode_eq:
  "decodePointCloud P (Some d) =
     (if num_points d = Some 0 then empty_result
      else case raw_bytes P d of
             Inl e \<Rightarrow> empty_result
           | Inr raw \<Rightarrow> (case parse (quantized d) raw of Inl e \<Rightarrow> empty_result | Inr r \<Rightarrow> r))"
  by (simp add: decodePointCloud_def thenE_def split: sum.splits)

lemma raw_bytes_platform_of:
  "raw_bytes (platform_of text bytes) (message n text quant) = Inr bytes"
  by (simp add: raw_bytes_def platform_of_def message_def)

lemma f32_one: "f32_of_bits 1065353216 = Num 1"
  by (simp add: f32_of_bits_def Let_def)

lemma f32_zero: "f32_of_bits 0 = Num 0"
  by (simp add: f32_of_bits_def Let_def)

lemma scenarioA_floats:
  "map (f32_at scenarioA_bytes) [5, 9, 13, 17, 21, 25] = [Num 0, Num 0, Num 0, Num 1, Num 1, Num 1]"
  by (simp add: f32_at_def le_bytes_4 scenarioA_bytes_def f32_one f32_zero)

text \<open>
  C1. The payload of scenario A holds the floats 0, 0, 0, 1, 1, 1 after its header, but
  the raw branch builds its \<open>Float32Array\<close> view at byte offset 5, which is not a
  multiple of 4: the constructor throws, the \<open>catch\<close> block answers, and every payload
  that is not quantized decodes to the empty result instead of its points.
\<close>

theorem raw_payload_never_decodes:
  "\<not> quantized d \<Longrightarrow> decodePointCloud P (Some d) = empty_result"
  by (simp add: decode_eq parse_raw split: sum.splits)

theorem raw_payload_never_decodes_witness:
  "\<not> quantized (message 2 scenarioA_text False)
   \<and> raw_bytes (platform_of scenarioA_text scenarioA_bytes) (message 2 scenarioA_text False)
       = Inr scenarioA_bytes
   \<and> le_bytes scenarioA_bytes 0 4 = 2 \<and> scenarioA_bytes ! 4 = 0
   \<and> map (f32_at scenarioA_bytes) [5, 9, 13, 17, 21, 25] = [Num 0, Num 0, Num 0, Num 1, Num 1, Num 1]
   \<and> decodePointCloud (platform_of scenarioA_text scenarioA_bytes)
        (Some (message 2 scenarioA_text False)) = \<lparr> points = None, colors = None, numPoints = 0 \<rparr>"
proof -
  have q: "\<not> quantized (message 2 scenarioA_text False)" by (simp add: message_def)
  have h: "le_bytes scenarioA_bytes 0 4 = 2 \<and> scenarioA_bytes ! 4 = 0"
    by (simp add: le_bytes_4 scenarioA_bytes_def)
  have d: "decodePointCloud (platform_of scenarioA_text scenarioA_bytes)
        (Some (message 2 scenarioA_text False)) = \<lparr> points = None, colors = None, numPoints = 0 \<rparr>"
    using raw_payload_never_decodes[OF q, of "platform_of scenarioA_text scenarioA_bytes"]
    by (simp only: empty_result_def)
  note r = raw_bytes_platform_of[of scenarioA_text scenarioA_bytes 2 False]
  note h1 = conjunct1[OF h] and h2 = conjunct2[OF h]
  show ?thesis
    apply (rule conjI, rule q)
    apply (rule conjI, rule r)
    apply (rule conjI, rule h1)
    apply (rule conjI, rule h2)
    apply (rule conjI, rule scenarioA_floats)
    apply (rule d)
    done
qed



lemma decode_quantized_success:
  assumes "quantized d" and "raw_bytes P d = Inr raw"
    and "points (decodePointCloud P (Some d)) = Some ps"
  shows "29 + 6 * le_bytes raw 0 4 \<le> length raw
         \<and> decodePointCloud P (Some d) =
             \<lparr> points = Some (quantized_points raw),
               colors = (if unat (raw ! 4) = 1
                         then Some (read_colors raw (29 + 6 * le_bytes raw 0 4) (le_bytes raw 0 4))
                         else None),
               numPoints = le_bytes raw 0 4 \<rparr>"
  using assms
  by (auto simp: decode_eq parse_quantized empty_result_def split: if_splits)


lemma dequantize_evals:
  "store_f32 (dequantize 0 (Num 1) (Num 0)) = Num 0"
  "store_f32 (dequantize 65535 (Num 1) (Num 0)) = Num 1"
  "store_f32 (dequantize 32768 (Num 1) (Num 0)) = Num (65537 / 131072)"
  by (simp_all add: dequantize_def store_f32_def to_f64_zero to_f32_zero to_f64_one to_f32_one
        to_f64_half to_f64_half' to_f32_half)

lemma channel_evals:
  "store_f32 (div_const (Num 0) 255) = Num 0"
  "store_f32 (div_const (Num 255) 255) = Num 1"
  "store_f32 (div_const (Num 51) 255) = Num (13421773 / 67108864)"
  "store_f32 (div_const NaN 255) = NaN"
  by (simp_all add: store_f32_def to_f64_zero to_f32_zero to_f64_one to_f32_one
        to_f64_fifth to_f32_fifth)

lemmas rounding_evals =
  store_f32_def to_f64_zero to_f32_zero to_f64_one to_f32_one to_f64_fifth to_f32_fifth


lemma upt3: "[0..<1 * 3] = [0, 1, 2]"
  by (simp add: upt_rec)

lemma read_colors_1:
  "read_colors raw off 1 =
     [store_f32 (div_const (u8_at raw off) 255), store_f32 (div_const (u8_at raw (off + 1)) 255),
      store_f32 (div_const (u8_at raw (off + 2)) 255)]"
  unfolding read_colors_def upt3 by simp





text \<open>
  C7. An absent payload and a payload whose \<open>num_points\<close> field is \<open>0\<close> give the empty
  result at once; and when the header inside the bytes announces no point, whatever the
  \<open>has_colors\<close> byte and the \<open>quantized\<close> flag, the result has zero points and its
  positions and colours are \<open>null\<close> or empty arrays. Nothing is thrown in any case.
\<close>

theorem zero_points_decode:
  "decodePointCloud P None = empty_result
   \<and> (num_points d = Some 0 \<longrightarrow> decodePointCloud P (Some d) = empty_result)
   \<and> (raw_bytes P d = Inr raw \<and> le_bytes raw 0 4 = 0 \<longrightarrow>
        numPoints (decodePointCloud P (Some d)) = 0
        \<and> (points (decodePointCloud P (Some d)) = None
             \<or> points (decodePointCloud P (Some d)) = Some [])
        \<and> (colors (decodePointCloud P (Some d)) = None
             \<or> colors (decodePointCloud P (Some d)) = Some []))"
proof -
  have a: "decodePointCloud P None = empty_result"
    by (simp add: decodePointCloud_def)
  have b: "num_points d = Some 0 \<longrightarrow> decodePointCloud P (Some d) = empty_result"
    by (simp add: decode_eq)
  have c: "numPoints (decodePointCloud P (Some d)) = 0
        \<and> (points (decodePointCloud P (Some d)) = None
             \<or> points (decodePointCloud P (Some d)) = Some [])
        \<and> (colors (decodePointCloud P (Some d)) = None
             \<or> colors (decodePointCloud P (Some d)) = Some [])"
    if r: "raw_bytes P d = Inr raw" and z: "le_bytes raw 0 4 = 0"
  proof (cases "quantized d")
    case False
    then show ?thesis
      by (simp add: decode_eq r parse_raw empty_result_def)
  next
    case True
    then show ?thesis
      by (simp add: decode_eq r parse_quantized z quantized_points_def read_colors_def empty_result_def)
  qed
  from a b c show ?thesis by blast
qed

lemma zero_reads: "le_bytes (qheader 0) 0 4 = 0" "qheader 0 ! 4 = 1" "length (qheader 0) = 29"
  by (simp_all add: qheader_def le_bytes_4)

theorem zero_points_decode_witness:
  "num_points (message 0 zero_text True) = Some 0
   \<and> decodePointCloud (platform_of zero_text (qheader 0)) (Some (message 0 zero_text True))
       = \<lparr> points = None, colors = None, numPoints = 0 \<rparr>
   \<and> raw_bytes (platform_of zero_text (qheader 0)) (message 7 zero_text True) = Inr (qheader 0)
   \<and> le_bytes (qheader 0) 0 4 = 0
   \<and> decodePointCloud (platform_of zero_text (qheader 0)) (Some (message 7 zero_text True))
       = \<lparr> points = Some [], colors = Some [], numPoints = 0 \<rparr>"
proof -
  have a: "num_points (message 0 zero_text True) = Some 0" by (simp add: message_def)
  have b: "decodePointCloud (platform_of zero_text (qheader 0)) (Some (message 0 zero_text True))
       = \<lparr> points = None, colors = None, numPoints = 0 \<rparr>"
    using zero_points_decode[of "platform_of zero_text (qheader 0)" "message 0 zero_text True"] a
    by (simp add: empty_result_def)
  note c = raw_bytes_platform_of[of zero_text "qheader 0" 7 True]
  have m: "num_points (message 7 zero_text True) \<noteq> Some 0" "quantized (message 7 zero_text True)"
    by (simp_all add: message_def)
  have e: "decodePointCloud (platform_of zero_text (qheader 0)) (Some (message 7 zero_text True))
       = \<lparr> points = Some [], colors = Some [], numPoints = 0 \<rparr>"
    by (simp add: decode_eq c m parse_quantized zero_reads quantized_points_def read_colors_def)
  show ?thesis
    by (intro conjI a b c e zero_reads)
qed

lemma no_colors_reads:
  "le_bytes no_colors_bytes 0 4 = 1" "no_colors_bytes ! 4 = 1" "length no_colors_bytes = 35"
  "bounds_at no_colors_bytes = \<lparr> minX = Num 0, minY = Num 0, minZ = Num 0,
                              rangeX = Num 1, rangeY = Num 1, rangeZ = Num 1 \<rparr>"
  "u16_at no_colors_bytes 29 = 0" "u16_at no_colors_bytes 31 = 65535" "u16_at no_colors_bytes 33 = 32768"
  by (simp_all add: no_colors_bytes_def qheader_def le_bytes_4 le_bytes_2 u16_at_def bounds_at_def
        f32_at_def f32_one f32_zero)

lemma no_colors_colors: "read_colors no_colors_bytes 35 1 = [NaN, NaN, NaN]"
  unfolding read_colors_1 by (simp add: u8_at_def no_colors_bytes_def qheader_def rounding_evals)

lemma no_colors_points: "quantized_points no_colors_bytes = [Num 0, Num 1, Num (65537 / 131072)]"
  by (simp add: quantized_points_def no_colors_reads qpoint_def dequantize_evals)

text \<open>
  C2. A quantized payload that announces one point with colours and ends after the
  position record, before the three colour bytes: the colour loop reads past the end of
  \<open>rawData\<close>, nothing throws, and the decoder returns one point with three \<open>NaN\<close>
  colour channels instead of the empty result.
\<close>

theorem truncated_colors_not_empty:
  "decodePointCloud (platform_of no_colors_text no_colors_bytes)
     (Some (message 1 no_colors_text True))
   = \<lparr> points = Some [Num 0, Num 1, Num (65537 / 131072)],
       colors = Some [NaN, NaN, NaN], numPoints = 1 \<rparr>
   \<and> decodePointCloud (platform_of no_colors_text no_colors_bytes)
       (Some (message 1 no_colors_text True)) \<noteq> empty_result
   \<and> length no_colors_bytes < 29 + 6 * 1 + 3 * 1"
proof -
  have m: "num_points (message 1 no_colors_text True) \<noteq> Some 0"
          "quantized (message 1 no_colors_text True)"
    by (simp_all add: message_def)
  have e: "decodePointCloud (platform_of no_colors_text no_colors_bytes)
     (Some (message 1 no_colors_text True))
   = \<lparr> points = Some [Num 0, Num 1, Num (65537 / 131072)],
       colors = Some [NaN, NaN, NaN], numPoints = 1 \<rparr>"
    by (simp add: decode_eq raw_bytes_platform_of m parse_quantized no_colors_reads
          no_colors_colors[simplified] no_colors_points)
  show ?thesis
    by (simp add: e empty_result_def no_colors_reads)
qed

lemma one_color_reads:
  "le_bytes one_color_bytes 0 4 = 1" "one_color_bytes ! 4 = 1" "length one_color_bytes = 36"
  "bounds_at one_color_bytes = \<lparr> minX = Num 0, minY = Num 0, minZ = Num 0,
                              rangeX = Num 1, rangeY = Num 1, rangeZ = Num 1 \<rparr>"
  "u16_at one_color_bytes 29 = 0" "u16_at one_color_bytes 31 = 65535" "u16_at one_color_bytes 33 = 32768"
  by (simp_all add: one_color_bytes_def qheader_def le_bytes_4 le_bytes_2 u16_at_def bounds_at_def
        f32_at_def f32_one f32_zero)

lemma one_color_colors:
  "read_colors one_color_bytes 35 1 = [Num (13421773 / 67108864), NaN, NaN]"
  unfolding read_colors_1 by (simp add: u8_at_def one_color_bytes_def qheader_def rounding_evals)

lemma one_color_points: "quantized_points one_color_bytes = [Num 0, Num 1, Num (65537 / 131072)]"
  by (simp add: quantized_points_def one_color_reads qpoint_def dequantize_evals)

text \<open>
  C8. A quantized payload with \<open>has_colors = 1\<close> and one point whose colour section holds
  one byte (51) of the three: the first channel is \<open>51 / 255\<close> as a 32-bit float, the two
  others are read past the end of the array and are \<open>NaN\<close>, which is no value of
  \<open>[0, 1]\<close>.
\<close>

theorem truncated_colors_are_NaN:
  "colors (decodePointCloud (platform_of one_color_text one_color_bytes)
            (Some (message 1 one_color_text True)))
   = Some [Num (13421773 / 67108864), NaN, NaN]"
proof -
  have m: "num_points (message 1 one_color_text True) \<noteq> Some 0"
          "quantized (message 1 one_color_text True)"
    by (simp_all add: message_def)
  show ?thesis
    by (simp add: decode_eq raw_bytes_platform_of m parse_quantized one_color_reads
          one_color_colors[simplified] one_color_points)
qed

text \<open>
  The colour channels whose byte is in the payload: the byte divided by 255 and stored as a
  32-bit float, a value of \<open>[0, 1]\<close>. The colour section starts right after the position
  records.
\<close>

lemma colors_of_present_bytes:
  assumes "quantized d" and "raw_bytes P d = Inr raw"
    and "points (decodePointCloud P (Some d)) = Some ps" and "raw ! 4 = 1"
    and "j < 3 * le_bytes raw 0 4" and "29 + 6 * le_bytes raw 0 4 + j < length raw"
  shows "\<exists>cs z. colors (decodePointCloud P (Some d)) = Some cs
            \<and> length cs = 3 * le_bytes raw 0 4
            \<and> cs ! j = store_f32 (div_const (Num (real (unat (raw ! (29 + 6 * le_bytes raw 0 4 + j))))) 255)
            \<and> cs ! j = Num z \<and> 0 \<le> z \<and> z \<le> 1"
proof -
  note s = decode_quantized_success[OF assms(1,2,3)]
  have u: "unat (raw ! (29 + 6 * le_bytes raw 0 4 + j)) \<le> 255"
    using unsigned_less[of "raw ! (29 + 6 * le_bytes raw 0 4 + j)", where ?'a = nat] by simp
  from channel_unit[OF u]
  obtain z where z: "store_f32 (div_const (Num (real (unat (raw ! (29 + 6 * le_bytes raw 0 4 + j))))) 255) = Num z"
      "0 \<le> z" "z \<le> 1"
    by blast
  have j: "j < le_bytes raw 0 4 * 3" using assms(5) by simp
  have c: "colors (decodePointCloud P (Some d))
           = Some (read_colors raw (29 + 6 * le_bytes raw 0 4) (le_bytes raw 0 4))"
    using s assms(4) by simp
  have l: "length (read_colors raw (29 + 6 * le_bytes raw 0 4) (le_bytes raw 0 4)) = 3 * le_bytes raw 0 4"
    by (simp add: read_colors_def)
  have e: "read_colors raw (29 + 6 * le_bytes raw 0 4) (le_bytes raw 0 4) ! j
           = store_f32 (div_const (Num (real (unat (raw ! (29 + 6 * le_bytes raw 0 4 + j))))) 255)"
    using j assms(6) by (simp add: read_colors_def u8_at_def del: of_nat_unat)
  show ?thesis
    using c l e z by metis
qed

text \<open>
  The failures that the \<open>try\<close> block does turn into the empty result: \<open>atob\<close> or
  \<open>pako.inflate\<close> throwing, and a quantized buffer that ends before the last position
  record.
\<close>

lemma corrupt_gives_empty:
  "raw_bytes P d = Inl e \<Longrightarrow> decodePointCloud P (Some d) = empty_result"
  "raw_bytes P d = Inr raw \<Longrightarrow> quantized d \<Longrightarrow> length raw < 29 + 6 * le_bytes raw 0 4 \<Longrightarrow>
     decodePointCloud P (Some d) = empty_result"
  by (simp_all add: decode_eq parse_quantized)

end
